theory Spec2Isabelle
  imports Complex_Main
begin

section \<open>The product catalog view model (lab-3/part-4)\<close>

subsection \<open>Objects, references and subscribers\<close>

text \<open>
  Modelled from the spec: the class \<open>Product\<close> is used by the view model
  (\<open>new Product(1, 'Apple', 0.5, 100)\<close>) but its declaration is not among the sources.
  The spec gives its fields: an integer \<open>id\<close>, a \<open>name\<close>, a decimal \<open>price\<close> and an
  integer \<open>quantity\<close>. The field \<open>id\<close> is written \<open>id_p\<close> here, \<open>id\<close> being the identity
  function of HOL. Identifiers are integers, so \<open>===\<close> on them is equality.
\<close>

record Product =
  id_p :: int
  name :: string
  price :: rat
  quantity :: int

text \<open>
  A \<open>Product\<close> is a JavaScript object: the array \<open>this.products\<close> holds references, and
  \<open>product.quantity = newQuantity\<close> writes through the reference. The same object may be
  pushed twice, so the objects live in a store \<open>heap\<close> and the array is a list of
  references.

  A subscriber is a function reference too. \<open>removeObserver\<close> compares subscribers with
  \<open>!==\<close>, which is identity of references, so a subscriber is modelled by its reference
  and what it does when called is given separately, by a \<open>body\<close>: called with the
  products it can read through \<open>getProducts\<close> and with the world outside the view model
  (the document, for the render function), it returns or throws, and leaves a new world.
  Two references may well have the same body. Bodies do not call the mutating methods of
  the view model they are subscribed to and do not write through the array they read.
\<close>

type_synonym ref = nat
type_synonym callback = nat

datatype 'e completion = Returned | Threw 'e

type_synonym ('w, 'e) body = "callback \<Rightarrow> Product list \<Rightarrow> 'w \<Rightarrow> 'e completion \<times> 'w"

text \<open>
  The state: the store of \<open>Product\<close> objects, the two private fields of the class, the
  world the subscribers act on, and \<open>calls\<close>, the history of the subscribers invoked so
  far (oldest first), which is not a field of the class but records what
  \<open>notifyObservers\<close> did.
\<close>

record 'w ProductCatalogViewModel =
  heap :: "ref \<Rightarrow> Product"
  products :: "ref list"
  observers :: "callback list"
  world :: 'w
  calls :: "callback list"

text \<open>The constructor: both arrays start empty.\<close>

definition constructor :: "(ref \<Rightarrow> Product) \<Rightarrow> 'w \<Rightarrow> 'w ProductCatalogViewModel" where
  "constructor h w = \<lparr>heap = h, products = [], observers = [], world = w, calls = []\<rparr>"

text \<open>The product values in catalog order, as a reader of \<open>getProducts()\<close> sees them.\<close>

definition snapshot :: "'w ProductCatalogViewModel \<Rightarrow> Product list" where
  "snapshot s = map (heap s) (products s)"

subsection \<open>The methods\<close>

text \<open>
  \<open>for (const observer of this.observers) { observer(); }\<close>: the subscribers are called
  in array order; a subscriber that throws ends the loop, and its exception leaves the
  method with whatever the subscribers called so far have done.
\<close>

fun notify_loop ::
  "('w, 'e) body \<Rightarrow> callback list \<Rightarrow> 'w ProductCatalogViewModel
     \<Rightarrow> 'e completion \<times> 'w ProductCatalogViewModel" where
  "notify_loop body [] s = (Returned, s)"
| "notify_loop body (observer # rest) s =
     (case body observer (snapshot s) (world s) of
        (Returned, w) \<Rightarrow> notify_loop body rest (s\<lparr>world := w, calls := calls s @ [observer]\<rparr>)
      | (Threw e, w) \<Rightarrow> (Threw e, s\<lparr>world := w, calls := calls s @ [observer]\<rparr>))"

definition notifyObservers ::
  "('w, 'e) body \<Rightarrow> 'w ProductCatalogViewModel \<Rightarrow> 'e completion \<times> 'w ProductCatalogViewModel" where
  "notifyObservers body s = notify_loop body (observers s) s"

definition addProduct ::
  "('w, 'e) body \<Rightarrow> ref \<Rightarrow> 'w ProductCatalogViewModel
     \<Rightarrow> 'e completion \<times> 'w ProductCatalogViewModel" where
  "addProduct body product s = notifyObservers body (s\<lparr>products := products s @ [product]\<rparr>)"

text \<open>
  \<open>this.products.find(p => p.id === productId)\<close> is the first element of the array that
  satisfies the test, or \<open>undefined\<close>; an object is truthy, so \<open>if (product)\<close> asks
  whether one was found.
\<close>

definition updateQuantity ::
  "('w, 'e) body \<Rightarrow> int \<Rightarrow> int \<Rightarrow> 'w ProductCatalogViewModel
     \<Rightarrow> 'e completion \<times> 'w ProductCatalogViewModel" where
  "updateQuantity body productId newQuantity s =
     (case List.find (\<lambda>p. id_p (heap s p) = productId) (products s) of
        Some product \<Rightarrow>
          notifyObservers body
            (s\<lparr>heap := (heap s)(product := (heap s product)\<lparr>quantity := newQuantity\<rparr>)\<rparr>)
      | None \<Rightarrow> (Returned, s))"

definition getProducts :: "'w ProductCatalogViewModel \<Rightarrow> ref list" where
  "getProducts s = products s"

definition addObserver :: "callback \<Rightarrow> 'w ProductCatalogViewModel \<Rightarrow> 'w ProductCatalogViewModel" where
  "addObserver observer s = s\<lparr>observers := observers s @ [observer]\<rparr>"

definition removeObserver :: "callback \<Rightarrow> 'w ProductCatalogViewModel \<Rightarrow> 'w ProductCatalogViewModel" where
  "removeObserver observer s = s\<lparr>observers := filter (\<lambda>obs. obs \<noteq> observer) (observers s)\<rparr>"

text \<open>The identifiers present in the catalog.\<close>

definition catalog_ids :: "'w ProductCatalogViewModel \<Rightarrow> int set" where
  "catalog_ids s = (\<lambda>p. id_p (heap s p)) ` set (products s)"

subsection \<open>Sequences of calls\<close>

text \<open>
  A caller makes one call after another. A call that throws has still changed the
  state, and a caller that catches the exception goes on from that state:
  \<open>perform_all\<close> gives how each call completed and the state after the last one.
\<close>

datatype call =
    AddProduct ref
  | UpdateQuantity int int
  | AddObserver callback
  | RemoveObserver callback

fun perform ::
  "('w, 'e) body \<Rightarrow> call \<Rightarrow> 'w ProductCatalogViewModel
     \<Rightarrow> 'e completion \<times> 'w ProductCatalogViewModel" where
  "perform body (AddProduct product) s = addProduct body product s"
| "perform body (UpdateQuantity productId newQuantity) s =
     updateQuantity body productId newQuantity s"
| "perform body (AddObserver observer) s = (Returned, addObserver observer s)"
| "perform body (RemoveObserver observer) s = (Returned, removeObserver observer s)"

fun perform_all ::
  "('w, 'e) body \<Rightarrow> call list \<Rightarrow> 'w ProductCatalogViewModel
     \<Rightarrow> 'e completion list \<times> 'w ProductCatalogViewModel" where
  "perform_all body [] s = ([], s)"
| "perform_all body (c # cs) s =
     (case perform body c s of
        (r, s1) \<Rightarrow> (case perform_all body cs s1 of (rs, s2) \<Rightarrow> (r # rs, s2)))"

subsection \<open>Example objects and subscribers\<close>

text \<open>
  The products of the demonstration script, and a third object that has the
  identifier of the first. Reference 0 is the apple, 1 the banana, any other the pear.
\<close>

definition apple :: Product where
  "apple = \<lparr>id_p = 1, name = ''Apple'', price = 1 / 2, quantity = 100\<rparr>"

definition banana :: Product where
  "banana = \<lparr>id_p = 2, name = ''Banana'', price = 3 / 10, quantity = 150\<rparr>"

definition pear :: Product where
  "pear = \<lparr>id_p = 1, name = ''Pear'', price = 2 / 5, quantity = 30\<rparr>"

definition store :: "ref \<Rightarrow> Product" where
  "store r = (if r = 0 then apple else if r = 1 then banana else pear)"

text \<open>
  A subscriber that redraws a list of the product names, as the render function of the
  repository redraws its list element, and one in which reference 9 throws.
\<close>

definition redraw :: "(string list, string) body" where
  "redraw observer ps w = (Returned, map name ps)"

definition redraw_or_fail :: "(string list, string) body" where
  "redraw_or_fail observer ps w =
     (if observer = 9 then (Threw ''render failed'', w) else (Returned, map name ps))"

text \<open>A catalog with two subscribers: the banana, the apple, then the pear.\<close>

definition shop :: "string list ProductCatalogViewModel" where
  "shop = \<lparr>heap = store, products = [1, 0, 2], observers = [3, 5], world = [], calls = []\<rparr>"

section \<open>The components of the component library (lab-1)\<close>

subsection \<open>Button\<close>

text \<open>
  The properties of the button. \<open>onClick\<close>, \<open>disabled\<close> and \<open>variant\<close> are optional
  (\<open>Partial\<close>): an omitted property is \<open>undefined\<close>, here \<open>None\<close>. The type \<open>Variants\<close>
  is checked by the compiler only, so at run time \<open>variant\<close> is any string or
  \<open>undefined\<close>. The property \<open>value\<close> is written \<open>button_value\<close>.
\<close>

datatype error = Error string

record ('a, 'h) ButtonProps =
  button_value :: 'a
  onClick :: "'h option"
  disabled :: "bool option"
  variant :: "string option"

text \<open>
  The element returned: the style array \<open>[styles.button, disabled && styles.disabled]\<close>
  (an entry that is \<open>undefined\<close> or \<open>false\<close> is \<open>None\<close>), the handler, the
  \<open>disabled\<close> attribute and the text child with its style.
\<close>

datatype style = Button_style | Disabled_style | Text_style

record 'h TouchableOpacity =
  style :: "style option list"
  onPress :: "'h option"
  disabled_attr :: "bool option"
  text_child :: "style \<times> string"

text \<open>
  \<open>["primary", "secondary", "tertiary"].includes(variant || "")\<close>: \<open>variant || ""\<close> is
  the empty string when \<open>variant\<close> is \<open>undefined\<close> or empty, and \<open>variant\<close> otherwise.
\<close>

definition isValidVariant :: "string option \<Rightarrow> bool" where
  "isValidVariant v =
     ((case v of None \<Rightarrow> '''' | Some given \<Rightarrow> if given = '''' then '''' else given)
        \<in> set [''primary'', ''secondary'', ''tertiary''])"

text \<open>\<open>String(value)\<close> is a parameter, \<open>to_string\<close>, the value being of any type.\<close>

definition Button :: "('a \<Rightarrow> string) \<Rightarrow> ('a, 'h) ButtonProps \<Rightarrow> error + 'h TouchableOpacity" where
  "Button to_string props =
     (if \<not> isValidVariant (variant props) then Inl (Error ''Invalid variant'')
      else Inr \<lparr>style = [Some Button_style,
                          if disabled props = Some True then Some Disabled_style else None],
                 onPress = onClick props,
                 disabled_attr = disabled props,
                 text_child = (Text_style, to_string (button_value props))\<rparr>)"

subsection \<open>InputField\<close>

text \<open>
  \<open>getErrorMessage\<close> switches on an \<open>ErrorType\<close>; its \<open>default\<close> branch is not
  reached by a value of that type. A character of a string stands for one UTF-16 code
  unit, which is what \<open>value.length\<close> counts. \<open>CHR 0x22\<close> is the double quote.
\<close>

datatype ErrorType = minLength | maxLength

definition getErrorMessage :: "string \<Rightarrow> ErrorType \<Rightarrow> string" where
  "getErrorMessage v error =
     (case error of
        minLength \<Rightarrow> ''The value '' @ [CHR 0x22] @ v @ [CHR 0x22] @ '' is too short''
      | maxLength \<Rightarrow> ''The value '' @ [CHR 0x22] @ v @ [CHR 0x22] @ '' is too long'')"

text \<open>
  The two state variables of the component (\<open>value\<close>, written \<open>input_value\<close>, and
  \<open>errorMessage\<close>), and the change handler, which sets both and then calls \<open>onChange\<close>
  if one was given (\<open>onChange?.(value)\<close>); the handler acts on a world of its own.
\<close>

record InputField =
  input_value :: string
  errorMessage :: string

definition handleChange ::
  "(string \<Rightarrow> 'w \<Rightarrow> 'w) option \<Rightarrow> string \<Rightarrow> InputField \<times> 'w \<Rightarrow> InputField \<times> 'w" where
  "handleChange onChange v st =
     (let field1 = (if length v < 5
                    then (fst st)\<lparr>errorMessage := getErrorMessage v minLength\<rparr>
                    else (fst st)\<lparr>errorMessage := ''''\<rparr>);
          field2 = field1\<lparr>input_value := v\<rparr>
      in (field2, case onChange of None \<Rightarrow> snd st | Some f \<Rightarrow> f v (snd st)))"


section \<open>Properties of the view model\<close>

subsection \<open>The notification loop\<close>

text \<open>The loop writes the world and the history only.\<close>

lemma notify_loop_frame:
  "heap (snd (notify_loop body obs s)) = heap s \<and>
   products (snd (notify_loop body obs s)) = products s \<and>
   observers (snd (notify_loop body obs s)) = observers s"
proof (induction obs arbitrary: s)
  case Nil
  show ?case by simp
next
  case (Cons ob obs)
  show ?case
  proof (cases "body ob (snapshot s) (world s)")
    case (Pair c w)
    then show ?thesis using Cons by (cases c) simp_all
  qed
qed

lemma notifyObservers_frame:
  "heap (snd (notifyObservers body s)) = heap s \<and>
   products (snd (notifyObservers body s)) = products s \<and>
   observers (snd (notifyObservers body s)) = observers s"
  using notify_loop_frame[of body "observers s" s] by (simp add: notifyObservers_def)

text \<open>Whatever happens, the subscribers called are a prefix of the array.\<close>

lemma notify_loop_calls_prefix:
  "\<exists>k \<le> length obs. calls (snd (notify_loop body obs s)) = calls s @ take k obs"
proof (induction obs arbitrary: s)
  case Nil
  show ?case by simp
next
  case (Cons ob obs)
  obtain c w where bw: "body ob (snapshot s) (world s) = (c, w)"
    by (cases "body ob (snapshot s) (world s)")
  show ?case
  proof (cases c)
    case Returned
    let ?s1 = "s\<lparr>world := w, calls := calls s @ [ob]\<rparr>"
    from Cons[of ?s1] obtain k where "k \<le> length obs"
      "calls (snd (notify_loop body obs ?s1)) = calls ?s1 @ take k obs" by blast
    then have "Suc k \<le> length (ob # obs) \<and>
       calls (snd (notify_loop body (ob # obs) s)) = calls s @ take (Suc k) (ob # obs)"
      using bw Returned by simp
    then show ?thesis by blast
  next
    case (Threw e)
    then have "Suc 0 \<le> length (ob # obs) \<and>
       calls (snd (notify_loop body (ob # obs) s)) = calls s @ take (Suc 0) (ob # obs)"
      using bw by simp
    then show ?thesis by blast
  qed
qed

text \<open>A loop that returns has called the whole array, in order.\<close>

lemma notify_loop_calls_returned:
  "fst (notify_loop body obs s) = Returned \<Longrightarrow>
   calls (snd (notify_loop body obs s)) = calls s @ obs"
proof (induction obs arbitrary: s)
  case Nil
  show ?case by simp
next
  case (Cons ob obs)
  obtain c w where bw: "body ob (snapshot s) (world s) = (c, w)"
    by (cases "body ob (snapshot s) (world s)")
  show ?case
  proof (cases c)
    case Returned
    then show ?thesis using Cons bw by simp
  next
    case (Threw e)
    then show ?thesis using Cons.prems bw by simp
  qed
qed

text \<open>The loop returns when no subscriber of the array throws.\<close>

lemma notify_loop_returns:
  "\<forall>ob \<in> set obs. \<forall>ps w. fst (body ob ps w) = Returned \<Longrightarrow>
   fst (notify_loop body obs s) = Returned"
proof (induction obs arbitrary: s)
  case Nil
  show ?case by simp
next
  case (Cons ob obs)
  obtain c w where bw: "body ob (snapshot s) (world s) = (c, w)"
    by (cases "body ob (snapshot s) (world s)")
  have "fst (body ob (snapshot s) (world s)) = Returned" using Cons.prems by simp
  then have c: "c = Returned" using bw by simp
  show ?case using Cons c bw by simp
qed

text \<open>An exception that leaves the loop was thrown by a subscriber of the array.\<close>

lemma notify_loop_threw:
  "fst (notify_loop body obs s) = Threw e \<Longrightarrow>
   \<exists>ob \<in> set obs. \<exists>ps w. fst (body ob ps w) = Threw e"
proof (induction obs arbitrary: s)
  case Nil
  then show ?case by simp
next
  case (Cons ob obs)
  obtain c w where bw: "body ob (snapshot s) (world s) = (c, w)"
    by (cases "body ob (snapshot s) (world s)")
  show ?case
  proof (cases c)
    case Returned
    then have "fst (notify_loop body obs (s\<lparr>world := w, calls := calls s @ [ob]\<rparr>)) = Threw e"
      using Cons.prems bw by simp
    from Cons.IH[OF this] show ?thesis by auto
  next
    case (Threw e')
    then have "e' = e" using Cons.prems bw by simp
    then have "fst (body ob (snapshot s) (world s)) = Threw e" using bw Threw by simp
    then show ?thesis by auto
  qed
qed

subsection \<open>The search by identifier\<close>

lemma find_id_None:
  "List.find (\<lambda>p. id_p (heap s p) = pid) (products s) = None \<longleftrightarrow> pid \<notin> catalog_ids s"
  by (auto simp: find_None_iff catalog_ids_def)

lemma find_id_Some:
  assumes "pid \<in> catalog_ids s"
  shows "\<exists>r \<in> set (products s). id_p (heap s r) = pid \<and>
     List.find (\<lambda>p. id_p (heap s p) = pid) (products s) = Some r"
proof -
  have "List.find (\<lambda>p. id_p (heap s p) = pid) (products s) \<noteq> None"
    using assms by (simp add: find_id_None)
  then obtain r where r: "List.find (\<lambda>p. id_p (heap s p) = pid) (products s) = Some r"
    by auto
  then have "r \<in> set (products s) \<and> id_p (heap s r) = pid"
    by (auto simp: find_Some_iff in_set_conv_nth)
  with r show ?thesis by blast
qed

lemma find_first:
  "\<forall>p \<in> set before. \<not> P p \<Longrightarrow> P x \<Longrightarrow> List.find P (before @ x # after) = Some x"
  by (induction before) auto

lemmas example_defs = constructor_def store_def apple_def banana_def pear_def redraw_def
  redraw_or_fail_def snapshot_def notifyObservers_def addProduct_def updateQuantity_def
  addObserver_def removeObserver_def getProducts_def catalog_ids_def shop_def

subsection \<open>Notification\<close>

text \<open>
  Claim C1, as the spec states it: every call of \<open>addProduct\<close> and every call of
  \<open>updateQuantity\<close>, whether the identifier is in the catalog or not, invokes each
  registered subscriber exactly once, in registration order, before it returns.
  This fails for \<open>updateQuantity\<close> with an identifier that is not in the catalog: with
  subscriber 0 registered and an empty catalog, \<open>updateQuantity(7, 3)\<close> returns and has
  invoked nobody, the call of \<open>notifyObservers\<close> being inside \<open>if (product)\<close>.
\<close>

theorem updateQuantity_missing_id_notifies_nobody:
  "fst (updateQuantity redraw 7 3 (addObserver 0 (constructor store []))) = Returned \<and>
   observers (addObserver 0 (constructor store [])) = [0] \<and>
   calls (snd (updateQuantity redraw 7 3 (addObserver 0 (constructor store [])))) = []"
  by (simp add: updateQuantity_def addObserver_def constructor_def)

text \<open>
  Claim C1, amended: a call of \<open>addProduct\<close>, and a call of \<open>updateQuantity\<close> with an
  identifier that is in the catalog, that returns has invoked each subscriber registered
  at the time of the call exactly once, in registration order (the history grows by the
  array of subscribers); such a call does return when no registered subscriber throws;
  and a call of \<open>updateQuantity\<close> with an identifier that is not in the catalog invokes
  no subscriber.
\<close>

theorem mutation_notifies_subscribers:
  "(fst (addProduct body product s) = Returned \<longrightarrow>
      calls (snd (addProduct body product s)) = calls s @ observers s) \<and>
   (present \<in> catalog_ids s \<longrightarrow> fst (updateQuantity body present q s) = Returned \<longrightarrow>
      calls (snd (updateQuantity body present q s)) = calls s @ observers s) \<and>
   (missing \<notin> catalog_ids s \<longrightarrow>
      calls (snd (updateQuantity body missing q s)) = calls s) \<and>
   ((\<forall>ob \<in> set (observers s). \<forall>ps w. fst (body ob ps w) = Returned) \<longrightarrow>
      fst (addProduct body product s) = Returned \<and>
      fst (updateQuantity body present q s) = Returned)"
proof (intro conjI impI)
  assume "fst (addProduct body product s) = Returned"
  then show "calls (snd (addProduct body product s)) = calls s @ observers s"
    using notify_loop_calls_returned[of body "observers s"
        "s\<lparr>products := products s @ [product]\<rparr>"]
    by (simp add: addProduct_def notifyObservers_def)
next
  assume p: "present \<in> catalog_ids s" and r: "fst (updateQuantity body present q s) = Returned"
  from find_id_Some[OF p] obtain x where
    x: "List.find (\<lambda>p. id_p (heap s p) = present) (products s) = Some x" by blast
  let ?s1 = "s\<lparr>heap := (heap s)(x := (heap s x)\<lparr>quantity := q\<rparr>)\<rparr>"
  have u: "updateQuantity body present q s = notify_loop body (observers s) ?s1"
    using x by (simp add: updateQuantity_def notifyObservers_def)
  show "calls (snd (updateQuantity body present q s)) = calls s @ observers s"
    using notify_loop_calls_returned[of body "observers s" ?s1] r u by simp
next
  assume "missing \<notin> catalog_ids s"
  then have "List.find (\<lambda>p. id_p (heap s p) = missing) (products s) = None"
    by (simp add: find_id_None)
  then show "calls (snd (updateQuantity body missing q s)) = calls s"
    by (simp add: updateQuantity_def)
next
  assume a: "\<forall>ob \<in> set (observers s). \<forall>ps w. fst (body ob ps w) = Returned"
  show "fst (addProduct body product s) = Returned"
    using notify_loop_returns[OF a] by (simp add: addProduct_def notifyObservers_def)
next
  assume a: "\<forall>ob \<in> set (observers s). \<forall>ps w. fst (body ob ps w) = Returned"
  show "fst (updateQuantity body present q s) = Returned"
    using notify_loop_returns[OF a]
    by (simp add: updateQuantity_def notifyObservers_def split: option.split)
qed

theorem mutation_notifies_subscribers_witness:
  "fst (addProduct redraw 2 shop) = Returned \<and>
   calls (snd (addProduct redraw 2 shop)) = [3, 5] \<and>
   2 \<in> catalog_ids shop \<and>
   fst (updateQuantity redraw 2 80 shop) = Returned \<and>
   calls (snd (updateQuantity redraw 2 80 shop)) = [3, 5] \<and>
   7 \<notin> catalog_ids shop \<and>
   calls (snd (updateQuantity redraw 7 80 shop)) = []"
  using mutation_notifies_subscribers[of redraw 2 shop 2 80 7]
  by (simp add: example_defs)

subsection \<open>What updateQuantity changes\<close>

text \<open>
  Claim C2: \<open>updateQuantity(id, q)\<close> with an identifier that is in the catalog sets the
  quantity of that product to \<open>q\<close> and leaves every other product, and every other field
  of the updated product, unchanged (the store differs at one object, and there in the
  field \<open>quantity\<close> only; the array of references is the same); with an identifier that
  is not in the catalog nothing changes at all.
\<close>

theorem updateQuantity_frame:
  "(present \<in> catalog_ids s \<longrightarrow>
      (\<exists>product \<in> set (products s). id_p (heap s product) = present \<and>
         heap (snd (updateQuantity body present q s)) =
           (heap s)(product := (heap s product)\<lparr>quantity := q\<rparr>) \<and>
         products (snd (updateQuantity body present q s)) = products s)) \<and>
   (missing \<notin> catalog_ids s \<longrightarrow> snd (updateQuantity body missing q s) = s)"
proof (intro conjI impI)
  assume p: "present \<in> catalog_ids s"
  from find_id_Some[OF p] obtain x where
    xs: "x \<in> set (products s)" "id_p (heap s x) = present" and
    x: "List.find (\<lambda>p. id_p (heap s p) = present) (products s) = Some x" by blast
  let ?s1 = "s\<lparr>heap := (heap s)(x := (heap s x)\<lparr>quantity := q\<rparr>)\<rparr>"
  have u: "updateQuantity body present q s = notifyObservers body ?s1"
    using x by (simp add: updateQuantity_def)
  have "heap (snd (updateQuantity body present q s)) =
          (heap s)(x := (heap s x)\<lparr>quantity := q\<rparr>) \<and>
        products (snd (updateQuantity body present q s)) = products s"
    using notifyObservers_frame[of body ?s1] u by simp
  with xs show "\<exists>product \<in> set (products s). id_p (heap s product) = present \<and>
         heap (snd (updateQuantity body present q s)) =
           (heap s)(product := (heap s product)\<lparr>quantity := q\<rparr>) \<and>
         products (snd (updateQuantity body present q s)) = products s" by blast
next
  assume "missing \<notin> catalog_ids s"
  then have "List.find (\<lambda>p. id_p (heap s p) = missing) (products s) = None"
    by (simp add: find_id_None)
  then show "snd (updateQuantity body missing q s) = s"
    by (simp add: updateQuantity_def)
qed

theorem updateQuantity_frame_witness:
  "2 \<in> catalog_ids shop \<and> 7 \<notin> catalog_ids shop \<and>
   snapshot (snd (updateQuantity redraw 2 80 shop)) =
     [banana\<lparr>quantity := 80\<rparr>, apple, pear] \<and>
   snd (updateQuantity redraw 7 80 shop) = shop"
  using updateQuantity_frame[of 2 shop redraw 80 7]
  by (simp add: example_defs)

text \<open>
  Claim C8: when several products of the catalog have the same identifier,
  \<open>updateQuantity(id, q)\<close> changes the first of them in insertion order only: the first
  object of the array with that identifier gets the quantity \<open>q\<close>, and every other
  object further on in the array, those with the same identifier too, is as it was.
\<close>

theorem updateQuantity_first_match_only:
  assumes "products s = before @ product # after"
    and "\<forall>p \<in> set before. id_p (heap s p) \<noteq> productId"
    and "id_p (heap s product) = productId"
  shows "heap (snd (updateQuantity body productId q s)) product =
      (heap s product)\<lparr>quantity := q\<rparr> \<and>
    (\<forall>later \<in> set after. later \<noteq> product \<longrightarrow>
        heap (snd (updateQuantity body productId q s)) later = heap s later)"
proof -
  have x: "List.find (\<lambda>p. id_p (heap s p) = productId) (products s) = Some product"
    using assms find_first[of before "\<lambda>p. id_p (heap s p) = productId" product after]
    by simp
  let ?s1 = "s\<lparr>heap := (heap s)(product := (heap s product)\<lparr>quantity := q\<rparr>)\<rparr>"
  have u: "updateQuantity body productId q s = notifyObservers body ?s1"
    using x by (simp add: updateQuantity_def)
  have "heap (snd (updateQuantity body productId q s)) =
      (heap s)(product := (heap s product)\<lparr>quantity := q\<rparr>)"
    using notifyObservers_frame[of body ?s1] u by simp
  then show ?thesis by simp
qed

theorem updateQuantity_first_match_only_witness:
  "products shop = [1] @ 0 # [2] \<and>
   id_p (heap shop 1) \<noteq> 1 \<and> id_p (heap shop 0) = 1 \<and> id_p (heap shop 2) = 1 \<and>
   heap (snd (updateQuantity redraw 1 80 shop)) 0 = apple\<lparr>quantity := 80\<rparr> \<and>
   heap (snd (updateQuantity redraw 1 80 shop)) 2 = pear"
  using updateQuantity_first_match_only[of shop "[1]" 0 "[2]" 1 redraw 80]
  by (simp add: example_defs)

subsection \<open>Errors of updateQuantity\<close>

text \<open>
  Claim C4: \<open>updateQuantity\<close> raises no error and returns no error value: with an
  identifier that is not in the catalog (the search goes through the array and finds
  nothing) it returns normally and has changed nothing, whatever the subscribers are.
  No exception is its own: one that leaves it was thrown by a registered subscriber,
  called because the identifier was found.
\<close>

theorem updateQuantity_raises_nothing:
  "(missing \<notin> catalog_ids s \<longrightarrow> updateQuantity body missing q s = (Returned, s)) \<and>
   (fst (updateQuantity body productId q s) = Threw e \<longrightarrow>
      productId \<in> catalog_ids s \<and>
      (\<exists>ob \<in> set (observers s). \<exists>ps w. fst (body ob ps w) = Threw e))"
proof (intro conjI impI)
  assume "missing \<notin> catalog_ids s"
  then have "List.find (\<lambda>p. id_p (heap s p) = missing) (products s) = None"
    by (simp add: find_id_None)
  then show "updateQuantity body missing q s = (Returned, s)"
    by (simp add: updateQuantity_def)
next
  assume t: "fst (updateQuantity body productId q s) = Threw e"
  show "productId \<in> catalog_ids s"
  proof (rule ccontr)
    assume "productId \<notin> catalog_ids s"
    then have "List.find (\<lambda>p. id_p (heap s p) = productId) (products s) = None"
      by (simp add: find_id_None)
    then show False using t by (simp add: updateQuantity_def)
  qed
next
  assume t: "fst (updateQuantity body productId q s) = Threw e"
  then obtain x where "fst (notify_loop body (observers s)
      (s\<lparr>heap := (heap s)(x := (heap s x)\<lparr>quantity := q\<rparr>)\<rparr>)) = Threw e"
    by (auto simp: updateQuantity_def notifyObservers_def split: option.splits)
  from notify_loop_threw[OF this]
  show "\<exists>ob \<in> set (observers s). \<exists>ps w. fst (body ob ps w) = Threw e" .
qed

theorem updateQuantity_raises_nothing_witness:
  "7 \<notin> catalog_ids (addObserver 9 shop) \<and>
   updateQuantity redraw_or_fail 7 80 (addObserver 9 shop) = (Returned, addObserver 9 shop) \<and>
   fst (updateQuantity redraw_or_fail 2 80 (addObserver 9 shop)) = Threw ''render failed'' \<and>
   2 \<in> catalog_ids (addObserver 9 shop)"
  using updateQuantity_raises_nothing[of 7 "addObserver 9 shop" redraw_or_fail 80 2
      "''render failed''"]
  by (simp add: example_defs)

subsection \<open>Insertion order\<close>

lemma perform_AddProduct_frame:
  "heap (snd (perform body (AddProduct p) s)) = heap s \<and>
   products (snd (perform body (AddProduct p) s)) = products s @ [p] \<and>
   observers (snd (perform body (AddProduct p) s)) = observers s"
  using notifyObservers_frame[of body "s\<lparr>products := products s @ [p]\<rparr>"]
  by (simp add: addProduct_def)

lemma perform_all_AddProduct:
  "heap (snd (perform_all body (map AddProduct ps) s)) = heap s \<and>
   products (snd (perform_all body (map AddProduct ps) s)) = products s @ ps"
proof (induction ps arbitrary: s)
  case Nil
  show ?case by simp
next
  case (Cons p ps)
  obtain r s1 where p: "perform body (AddProduct p) s = (r, s1)"
    by (cases "perform body (AddProduct p) s")
  obtain rs s2 where ps: "perform_all body (map AddProduct ps) s1 = (rs, s2)"
    by (cases "perform_all body (map AddProduct ps) s1")
  have "heap s1 = heap s \<and> products s1 = products s @ [p]"
    using perform_AddProduct_frame[of body p s] p by simp
  moreover have "heap s2 = heap s1 \<and> products s2 = products s1 @ ps"
    using Cons[of s1] ps by simp
  ultimately show ?case using p ps by simp
qed

lemma perform_all_AddProduct_no_observers:
  "observers s = [] \<Longrightarrow>
   perform_all body (map AddProduct ps) s =
     (replicate (length ps) Returned, s\<lparr>products := products s @ ps\<rparr>)"
proof (induction ps arbitrary: s)
  case Nil
  show ?case by simp
next
  case (Cons p ps)
  have 1: "perform body (AddProduct p) s = (Returned, s\<lparr>products := products s @ [p]\<rparr>)"
    using Cons.prems by (simp add: addProduct_def notifyObservers_def)
  have 2: "perform_all body (map AddProduct ps) (s\<lparr>products := products s @ [p]\<rparr>) =
     (replicate (length ps) Returned, s\<lparr>products := products s @ [p] @ ps\<rparr>)"
    using Cons.IH[of "s\<lparr>products := products s @ [p]\<rparr>"] Cons.prems by simp
  show ?case using 1 2 by simp
qed

text \<open>
  Claim C3: after any finite sequence of \<open>addProduct\<close> calls on a fresh view model,
  \<open>getProducts()\<close> is exactly the sequence of the products added, in the order of the
  calls; nothing is validated or rejected, duplicate identifiers and even the same
  object twice included (\<open>ps\<close> is any list of references). Every call returns, the
  objects are untouched, and on any view model the products added come after those
  already there, in order.
\<close>

theorem addProduct_insertion_order:
  "perform_all body (map AddProduct ps) (constructor h w) =
     (replicate (length ps) Returned, (constructor h w)\<lparr>products := ps\<rparr>) \<and>
   getProducts (snd (perform_all body (map AddProduct ps) (constructor h w))) = ps \<and>
   snapshot (snd (perform_all body (map AddProduct ps) (constructor h w))) = map h ps \<and>
   getProducts (snd (perform_all body (map AddProduct ps) s)) = getProducts s @ ps"
proof -
  have f: "perform_all body (map AddProduct ps) (constructor h w) =
     (replicate (length ps) Returned, (constructor h w)\<lparr>products := ps\<rparr>)"
    using perform_all_AddProduct_no_observers[of "constructor h w" body ps]
    by (simp add: constructor_def)
  have g: "getProducts (snd (perform_all body (map AddProduct ps) s)) = getProducts s @ ps"
    using perform_all_AddProduct[of body ps s] by (simp add: getProducts_def)
  show ?thesis using f g by (simp add: getProducts_def snapshot_def constructor_def)
qed

theorem addProduct_insertion_order_witness:
  "getProducts (snd (perform_all redraw [AddProduct 0, AddProduct 1, AddProduct 2, AddProduct 0]
      (constructor store []))) = [0, 1, 2, 0] \<and>
   snapshot (snd (perform_all redraw [AddProduct 0, AddProduct 1, AddProduct 2, AddProduct 0]
      (constructor store []))) = [apple, banana, pear, apple]"
  using addProduct_insertion_order[of redraw "[0, 1, 2, 0]" store "[]" shop]
  by (simp add: example_defs)

subsection \<open>Removing a subscriber\<close>

lemma count_list_filter_neq:
  "count_list (filter (\<lambda>obs. obs \<noteq> f) xs) g = (if g = f then 0 else count_list xs g)"
  by (induction xs) auto

lemma length_filter_neq:
  "length (filter (\<lambda>obs. obs \<noteq> f) xs) + count_list xs f = length xs"
  by (induction xs) auto

text \<open>
  A call other than \<open>addObserver(f)\<close> on a view model where \<open>f\<close> is not registered
  does not invoke \<open>f\<close> and leaves it unregistered.
\<close>

lemma perform_silent:
  assumes "f \<notin> set (observers s)" and "c \<noteq> AddObserver f"
  shows "f \<notin> set (observers (snd (perform body c s))) \<and>
    (\<exists>new. calls (snd (perform body c s)) = calls s @ new \<and> f \<notin> set new)"
proof (cases c)
  case (AddProduct p)
  let ?s1 = "s\<lparr>products := products s @ [p]\<rparr>"
  from notify_loop_calls_prefix[of "observers s" body ?s1] obtain k where
    k: "calls (snd (notify_loop body (observers s) ?s1)) = calls s @ take k (observers s)"
    by auto
  have "f \<notin> set (take k (observers s))" using assms(1) by (auto dest: in_set_takeD)
  then show ?thesis
    using AddProduct k assms(1) notify_loop_frame[of body "observers s" ?s1]
    by (simp add: addProduct_def notifyObservers_def)
next
  case (UpdateQuantity pid q)
  show ?thesis
  proof (cases "List.find (\<lambda>p. id_p (heap s p) = pid) (products s)")
    case None
    then show ?thesis using UpdateQuantity assms(1) by (simp add: updateQuantity_def)
  next
    case (Some x)
    let ?s1 = "s\<lparr>heap := (heap s)(x := (heap s x)\<lparr>quantity := q\<rparr>)\<rparr>"
    from notify_loop_calls_prefix[of "observers s" body ?s1] obtain k where
      k: "calls (snd (notify_loop body (observers s) ?s1)) = calls s @ take k (observers s)"
      by auto
    have "f \<notin> set (take k (observers s))" using assms(1) by (auto dest: in_set_takeD)
    then show ?thesis
      using UpdateQuantity Some k assms(1) notify_loop_frame[of body "observers s" ?s1]
      by (simp add: updateQuantity_def notifyObservers_def)
  qed
next
  case (AddObserver g)
  then show ?thesis using assms by (auto simp: addObserver_def)
next
  case (RemoveObserver g)
  then show ?thesis using assms by (simp add: removeObserver_def)
qed

lemma perform_all_silent:
  "f \<notin> set (observers s) \<Longrightarrow> AddObserver f \<notin> set cs \<Longrightarrow>
   \<exists>new. calls (snd (perform_all body cs s)) = calls s @ new \<and> f \<notin> set new"
proof (induction cs arbitrary: s)
  case Nil
  show ?case by simp
next
  case (Cons c cs)
  obtain r s1 where p: "perform body c s = (r, s1)" by (cases "perform body c s")
  obtain rs s2 where ps: "perform_all body cs s1 = (rs, s2)"
    by (cases "perform_all body cs s1")
  have c: "c \<noteq> AddObserver f" and cs: "AddObserver f \<notin> set cs"
    using Cons.prems(2) by auto
  from perform_silent[OF Cons.prems(1) c, of body] p obtain new1 where
    s1: "f \<notin> set (observers s1)" "calls s1 = calls s @ new1" "f \<notin> set new1" by auto
  from Cons.IH[OF s1(1) cs] ps obtain new2 where
    s2: "calls s2 = calls s1 @ new2" "f \<notin> set new2" by auto
  have "calls s2 = calls s @ (new1 @ new2) \<and> f \<notin> set (new1 @ new2)"
    using s1 s2 by simp
  then show ?case using p ps by auto
qed

text \<open>
  Claim C5: after \<open>removeObserver(f)\<close>, no later call of \<open>addProduct\<close> or
  \<open>updateQuantity\<close> invokes \<open>f\<close>: whatever sequence of \<open>addProduct\<close> and
  \<open>updateQuantity\<close> calls follows, returning or throwing, the history grows by
  subscribers other than \<open>f\<close> only (and so it is when other subscribers are registered
  or removed in between; only \<open>addObserver(f)\<close> itself would subscribe \<open>f\<close> anew).
  Removal is by identity of reference: every other subscriber stays registered as often
  as it was, and the next \<open>addProduct\<close> that returns has invoked exactly the others,
  in their order.
\<close>

theorem removeObserver_silences:
  "(AddObserver f \<notin> set cs \<longrightarrow>
      (\<exists>new. calls (snd (perform_all body cs (removeObserver f s))) = calls s @ new \<and>
         f \<notin> set new)) \<and>
   (\<forall>g. g \<noteq> f \<longrightarrow>
      count_list (observers (removeObserver f s)) g = count_list (observers s) g) \<and>
   (fst (addProduct body product (removeObserver f s)) = Returned \<longrightarrow>
      calls (snd (addProduct body product (removeObserver f s))) =
        calls s @ filter (\<lambda>g. g \<noteq> f) (observers s))"
proof (intro conjI impI allI)
  assume a: "AddObserver f \<notin> set cs"
  have "f \<notin> set (observers (removeObserver f s))" by (simp add: removeObserver_def)
  from perform_all_silent[OF this a, of body]
  show "\<exists>new. calls (snd (perform_all body cs (removeObserver f s))) = calls s @ new \<and>
      f \<notin> set new"
    by (simp add: removeObserver_def)
next
  fix g :: callback
  assume "g \<noteq> f"
  then show "count_list (observers (removeObserver f s)) g = count_list (observers s) g"
    by (simp add: removeObserver_def count_list_filter_neq)
next
  assume "fst (addProduct body product (removeObserver f s)) = Returned"
  then show "calls (snd (addProduct body product (removeObserver f s))) =
        calls s @ filter (\<lambda>g. g \<noteq> f) (observers s)"
    using notify_loop_calls_returned[of body "observers (removeObserver f s)"
        "(removeObserver f s)\<lparr>products := products (removeObserver f s) @ [product]\<rparr>"]
    by (simp add: addProduct_def notifyObservers_def removeObserver_def)
qed

theorem removeObserver_silences_witness:
  "AddObserver 3 \<notin> set [AddProduct 2, AddObserver 4, UpdateQuantity 1 80, UpdateQuantity 7 1] \<and>
   calls (snd (perform_all redraw
      [AddProduct 2, AddObserver 4, UpdateQuantity 1 80, UpdateQuantity 7 1]
      (removeObserver 3 shop))) = [5, 5, 4] \<and>
   observers (removeObserver 3 shop) = [5] \<and>
   fst (addProduct redraw 2 (removeObserver 3 shop)) = Returned \<and>
   calls (snd (addProduct redraw 2 (removeObserver 3 shop))) = [5]"
  using removeObserver_silences[of 3
      "[AddProduct 2, AddObserver 4, UpdateQuantity 1 80, UpdateQuantity 7 1]" redraw shop 2]
  by (simp add: example_defs)

text \<open>
  Claim C9: when the same reference has been registered several times, one
  \<open>removeObserver\<close> with that reference removes every occurrence of it, not just one:
  afterwards it is not in the array at all, and the array is shorter by the number of
  times it was there.
\<close>

theorem removeObserver_every_occurrence:
  "f \<notin> set (observers (removeObserver f s)) \<and>
   length (observers (removeObserver f s)) + count_list (observers s) f =
     length (observers s)"
  by (simp add: removeObserver_def length_filter_neq)

theorem removeObserver_every_occurrence_witness:
  "observers (addObserver 3 (addObserver 3 shop)) = [3, 5, 3, 3] \<and>
   observers (removeObserver 3 (addObserver 3 (addObserver 3 shop))) = [5]"
  using removeObserver_every_occurrence[of 3 "addObserver 3 (addObserver 3 shop)"]
  by (simp add: example_defs)

section \<open>Properties of the components\<close>

subsection \<open>Button\<close>

lemma isValidVariant_iff:
  "isValidVariant v \<longleftrightarrow> v \<in> {Some ''primary'', Some ''secondary'', Some ''tertiary''}"
  by (cases v) (auto simp: isValidVariant_def)

text \<open>
  Claim C6: the button throws an error when its variant is not a valid one, and does
  not throw (it returns its element) when the variant is \<open>"primary"\<close>, \<open>"secondary"\<close>
  or \<open>"tertiary"\<close>; the check comes before anything is rendered.
\<close>

theorem Button_variant_check:
  "(variant props \<in> {Some ''primary'', Some ''secondary'', Some ''tertiary''} \<longrightarrow>
      (\<exists>element. Button to_string props = Inr element)) \<and>
   (variant props \<notin> {Some ''primary'', Some ''secondary'', Some ''tertiary''} \<longrightarrow>
      Button to_string props = Inl (Error ''Invalid variant''))"
  using isValidVariant_iff[of "variant props"] by (simp add: Button_def)

theorem Button_variant_check_witness:
  "Button (\<lambda>n::nat. ''Save'')
     \<lparr>button_value = 1, onClick = Some (0::nat), disabled = Some True,
      variant = Some ''secondary''\<rparr> =
   Inr \<lparr>style = [Some Button_style, Some Disabled_style], onPress = Some 0,
        disabled_attr = Some True, text_child = (Text_style, ''Save'')\<rparr> \<and>
   Button (\<lambda>n::nat. ''Save'')
     \<lparr>button_value = 1, onClick = Some (0::nat), disabled = Some True,
      variant = Some ''danger''\<rparr> =
   Inl (Error ''Invalid variant'')"
  using Button_variant_check[of
      "\<lparr>button_value = 1::nat, onClick = Some (0::nat), disabled = Some True,
        variant = Some ''secondary''\<rparr>" "\<lambda>n. ''Save''"]
    Button_variant_check[of
      "\<lparr>button_value = 1::nat, onClick = Some (0::nat), disabled = Some True,
        variant = Some ''danger''\<rparr>" "\<lambda>n. ''Save''"]
  by (simp add: Button_def isValidVariant_def)

text \<open>
  Claim C10: the button throws whenever the variant is omitted, although the type
  declares it optional: \<open>undefined || ""\<close> is the empty string, which is not one of the
  three variants, so the variant is mandatory at run time.
\<close>

theorem Button_variant_omitted_throws:
  "variant props = None \<Longrightarrow> Button to_string props = Inl (Error ''Invalid variant'')"
  by (simp add: Button_def isValidVariant_def)

theorem Button_variant_omitted_throws_witness:
  "Button (\<lambda>n::nat. ''Save'')
     \<lparr>button_value = 1, onClick = Some (0::nat), disabled = None, variant = None\<rparr> =
   Inl (Error ''Invalid variant'')"
  using Button_variant_omitted_throws[of
      "\<lparr>button_value = 1::nat, onClick = Some (0::nat), disabled = None, variant = None\<rparr>"
      "\<lambda>n. ''Save''"]
  by simp

subsection \<open>InputField\<close>

lemma last_too_short: "last (getErrorMessage v minLength) = CHR ''t''"
  by (simp add: getErrorMessage_def)

lemma last_too_long: "last (getErrorMessage v maxLength) = CHR ''g''"
  by (simp add: getErrorMessage_def)

lemma too_long_nonempty: "getErrorMessage v maxLength \<noteq> ''''"
  by (simp add: getErrorMessage_def)

lemma handleChange_errorMessage:
  "errorMessage (fst (handleChange onChange v st)) =
     (if length v < 5 then getErrorMessage v minLength else '''')"
  by (simp add: handleChange_def Let_def)

lemma handleChange_not_too_long:
  "errorMessage (fst (handleChange onChange v st)) \<noteq> getErrorMessage v' maxLength"
proof (cases "length v < 5")
  case True
  have "last (getErrorMessage v minLength) \<noteq> last (getErrorMessage v' maxLength)"
    by (simp add: last_too_short last_too_long)
  then have "getErrorMessage v minLength \<noteq> getErrorMessage v' maxLength" by auto
  then show ?thesis using True by (simp add: handleChange_errorMessage)
next
  case False
  then show ?thesis using too_long_nonempty[of v'] by (simp add: handleChange_errorMessage)
qed

text \<open>
  Claim C7, as the spec states it: the change handler computes a message of both
  kinds, so for some input it produces the too-long message. It does not: no input and
  no state make its message the too-long message of any value, since the handler tests
  \<open>value.length < 5\<close> only and asks \<open>getErrorMessage\<close> for \<open>"minLength"\<close> only.
\<close>

theorem handleChange_never_too_long:
  "\<not> (\<exists>(onChange :: (string \<Rightarrow> string list \<Rightarrow> string list) option) v st v'.
        errorMessage (fst (handleChange onChange v st)) = getErrorMessage v' maxLength)"
  by (simp add: handleChange_not_too_long)

text \<open>
  Claim C7, amended: the change handler computes a validation message of the too-short
  kind only, stored for display and not thrown: for an input of fewer than 5 characters
  the message is the too-short message of that input, for any other input it is empty;
  the input is stored as the value in both cases.
\<close>

theorem handleChange_message:
  "errorMessage (fst (handleChange onChange v st)) =
     (if length v < 5 then getErrorMessage v minLength else '''') \<and>
   input_value (fst (handleChange onChange v st)) = v"
  using handleChange_errorMessage[of onChange v st]
  by (simp add: handleChange_def Let_def)

theorem handleChange_message_witness:
  "errorMessage (fst (handleChange (Some (\<lambda>v w. w @ [v])) ''abc''
      (\<lparr>input_value = '''', errorMessage = ''''\<rparr>, []))) =
     ''The value '' @ [CHR 0x22] @ ''abc'' @ [CHR 0x22] @ '' is too short'' \<and>
   errorMessage (fst (handleChange (Some (\<lambda>v w. w @ [v])) ''abcdefghijklmnopqrstuvwxyz''
      (\<lparr>input_value = '''', errorMessage = ''''\<rparr>, []))) = ''''"
  using handleChange_message[of "Some (\<lambda>v w. w @ [v])" "''abc''"
      "(\<lparr>input_value = '''', errorMessage = ''''\<rparr>, [])"]
    handleChange_message[of "Some (\<lambda>v w. w @ [v])" "''abcdefghijklmnopqrstuvwxyz''"
      "(\<lparr>input_value = '''', errorMessage = ''''\<rparr>, [])"]
  by (simp add: getErrorMessage_def)

end
